theory Spec2Isabelle
  imports Complex_Main "HOL-Library.Sublist"
begin

section \<open>Python values used by the housenumber sanitizer\<close>

text \<open>
  The sanitizer \<^verbatim>\<open>clean_housenumbers.py\<close> works on Python strings, which are sequences
  of Unicode code points. A character is therefore modelled by its code point and a
  string by the list of its code points; \<open>py\<close> turns an ASCII literal into such a list.
\<close>

type_synonym pychar = nat
type_synonym pystr = "nat list"

definition py :: "string \<Rightarrow> pystr" where
  "py s = map of_char s"

datatype pyerror = ZeroDivisionError | ValueError | OverflowError

subsection \<open>Digits\<close>

text \<open>
  \<open>decimal_zeros\<close> lists the code point of the digit zero of every run of ten decimal
  digits (general category Nd) of Unicode 14, the character database of the interpreter.
  These are the characters matched by \<^verbatim>\<open>\d\<close> in a string pattern, accepted by
  \<^verbatim>\<open>str.isdecimal\<close> and converted by \<^verbatim>\<open>int\<close>.
\<close>

definition decimal_zeros :: "nat list" where
  "decimal_zeros =
    [48, 1632, 1776, 1984, 2406, 2534, 2662, 2790, 2918, 3046, 3174, 3302, 3430, 3558,
     3664, 3792, 3872, 4160, 4240, 6112, 6160, 6470, 6608, 6784, 6800, 6992, 7088, 7232,
     7248, 42528, 43216, 43264, 43472, 43504, 43600, 44016, 65296, 66720, 68912, 69734,
     69872, 69942, 70096, 70384, 70736, 70864, 71248, 71360, 71472, 71904, 72016, 72784,
     73040, 73120, 92768, 92864, 93008, 120782, 120792, 120802, 120812, 120822, 123200,
     123632, 125264, 130032]"

definition decimal_value :: "pychar \<Rightarrow> nat option" where
  "decimal_value c =
     map_option (\<lambda>z. c - z) (find (\<lambda>z. z \<le> c \<and> c < z + 10) decimal_zeros)"

definition isdecimal_char :: "pychar \<Rightarrow> bool" where
  "isdecimal_char c = (decimal_value c \<noteq> None)"

text \<open>
  \<^verbatim>\<open>str.isdigit\<close> accepts, besides the decimal digits, the characters whose
  Numeric_Type is Digit: superscripts, subscripts, circled digits and the like.
  \<open>other_digit_ranges\<close> lists them as inclusive ranges of code points.
\<close>

definition other_digit_ranges :: "(nat \<times> nat) list" where
  "other_digit_ranges =
    [(178, 179), (185, 185), (4969, 4977), (6618, 6618), (8304, 8304), (8308, 8313),
     (8320, 8329), (9312, 9320), (9332, 9340), (9352, 9360), (9450, 9450), (9461, 9469),
     (9471, 9471), (10102, 10110), (10112, 10120), (10122, 10130), (68160, 68163),
     (69216, 69224), (69714, 69722), (127232, 127242)]"

definition isdigit_char :: "pychar \<Rightarrow> bool" where
  "isdigit_char c =
     (isdecimal_char c \<or> list_ex (\<lambda>(lo, hi). lo \<le> c \<and> c \<le> hi) other_digit_ranges)"

definition isdigit :: "pystr \<Rightarrow> bool" where
  "isdigit s = (s \<noteq> [] \<and> list_all isdigit_char s)"

subsection \<open>Conversions between strings and integers\<close>

fun parse_decimal :: "nat \<Rightarrow> pystr \<Rightarrow> nat option" where
  "parse_decimal acc [] = Some acc"
| "parse_decimal acc (c # cs) =
     (case decimal_value c of
        None \<Rightarrow> None
      | Some d \<Rightarrow> parse_decimal (10 * acc + d) cs)"

text \<open>
  \<open>py_int s\<close> is \<^verbatim>\<open>int(s)\<close> for the strings that reach it in this file: a single
  character, or a run of decimal digits cut out of a string that matched the range
  pattern. On these, \<^verbatim>\<open>int\<close> raises ValueError when the string has more characters
  than the interpreter's limit on integer strings (\<^verbatim>\<open>sys.get_int_max_str_digits()\<close>,
  4300 unless it is reconfigured; leading zeros count), and otherwise returns the decimal
  value when every character is a decimal digit and raises ValueError if not. (Signs,
  underscores and surrounding blanks, which \<^verbatim>\<open>int\<close> accepts in longer strings, never
  reach the calls.) The same limit applies to \<^verbatim>\<open>str\<close>; the integers that reach it
  lie between 0 and an endpoint that \<^verbatim>\<open>int\<close> has returned, so they have at most 4300
  digits and \<open>py_str\<close> needs no error.
\<close>

definition int_max_str_digits :: nat where
  "int_max_str_digits = 4300"

definition py_int :: "pystr \<Rightarrow> pyerror + int" where
  "py_int s =
     (if s = [] then Inl ValueError
      else if int_max_str_digits < length s then Inl ValueError
      else case parse_decimal 0 s of
             None \<Rightarrow> Inl ValueError
           | Some n \<Rightarrow> Inr (int n))"

fun decimal_digits :: "nat \<Rightarrow> pystr" where
  "decimal_digits n =
     (if n < 10 then [48 + n] else decimal_digits (n div 10) @ [48 + n mod 10])"

declare decimal_digits.simps [simp del]

definition py_str :: "int \<Rightarrow> pystr" where
  "py_str i = (if i < 0 then 45 # decimal_digits (nat (- i)) else decimal_digits (nat i))"

text \<open>\<^verbatim>\<open>s.split(sep)\<close> for a separator of one character.\<close>

fun py_split :: "pychar \<Rightarrow> pystr \<Rightarrow> pystr list" where
  "py_split sep [] = [[]]"
| "py_split sep (c # cs) =
     (if c = sep then [] # py_split sep cs
      else case py_split sep cs of
             [] \<Rightarrow> [[c]]
           | w # ws \<Rightarrow> (c # w) # ws)"

subsection \<open>True division and ranges\<close>

text \<open>
  \<^verbatim>\<open>a / b\<close> on two integers raises ZeroDivisionError for a zero divisor and
  OverflowError when the correctly rounded quotient does not fit a double, that is when
  its magnitude reaches \<open>2^1024 - 2^970\<close>. Otherwise the result is the double nearest
  to the quotient. The model keeps the exact quotient: the only use of the result is the
  comparison with 10, the divisors that occur are at most 9, and for them the nearest
  double is below 10 exactly when the quotient is.
\<close>

definition float_overflow :: "int \<Rightarrow> int \<Rightarrow> bool" where
  "float_overflow a b = (\<bar>b\<bar> * (2 ^ 1024 - 2 ^ 970) \<le> \<bar>a\<bar>)"

definition py_truediv :: "int \<Rightarrow> int \<Rightarrow> pyerror + rat" where
  "py_truediv a b =
     (if b = 0 then Inl ZeroDivisionError
      else if float_overflow a b then Inl OverflowError
      else Inr (of_int a / of_int b))"

text \<open>\<^verbatim>\<open>range(start, stop, step)\<close>, as the list of its elements.\<close>

definition py_range :: "int \<Rightarrow> int \<Rightarrow> int \<Rightarrow> pyerror + int list" where
  "py_range start stop step =
     (if step = 0 then Inl ValueError
      else if 0 < step then
        Inr (map (\<lambda>k. start + int k * step) [0..<nat ((stop - start + step - 1) div step)])
      else
        Inr (map (\<lambda>k. start + int k * step) [0..<nat ((start - stop - step - 1) div (- step))]))"

section \<open>Data model\<close>

text \<open>
  Modelled from the spec: \<^verbatim>\<open>PlaceName\<close> and \<^verbatim>\<open>ProcessInfo\<close> are imported by the
  sanitizer but defined elsewhere. An address item has a kind, a value (\<open>name\<close>) and
  further attributes that the sanitizer never inspects (\<open>extra\<close>); \<^verbatim>\<open>clone\<close> copies
  an item, overriding the kind and, when given, the name. A record holds the ordered
  sequences \<open>names\<close> and \<open>address\<close>.
\<close>

record 'e PlaceName =
  name :: pystr
  kind :: pystr
  extra :: 'e

record 'e ProcessInfo =
  names :: "'e PlaceName list"
  address :: "'e PlaceName list"

definition clone_kind :: "'e PlaceName \<Rightarrow> pystr \<Rightarrow> 'e PlaceName" where
  "clone_kind item k = item\<lparr>kind := k\<rparr>"

definition clone_kind_name :: "'e PlaceName \<Rightarrow> pystr \<Rightarrow> pystr \<Rightarrow> 'e PlaceName" where
  "clone_kind_name item k n = item\<lparr>kind := k, name := n\<rparr>"

text \<open>
  The attributes bound by \<^verbatim>\<open>_HousenumberSanitizer.__init__\<close>. The two filters and the
  splitter are built by the configuration, which is not part of this file, so they are
  taken as they are used: two predicates on strings and the \<^verbatim>\<open>split\<close> method of the
  compiled delimiter expression.
\<close>

record config =
  filter_kind :: "pystr \<Rightarrow> bool"
  split_regexp :: "pystr \<Rightarrow> pystr list"
  filter_name :: "pystr \<Rightarrow> bool"
  expand_interpolations :: bool

section \<open>The sanitizer\<close>

text \<open>
  \<^verbatim>\<open>RANGE_REGEX.fullmatch\<close> for the pattern \<^verbatim>\<open>\d+-\d+\<close>: a non-empty run of decimal
  digits, a hyphen (code point 45), and a non-empty run of decimal digits up to the end.
  The hyphen is no digit, so the first run is the longest prefix of digits.
\<close>

definition RANGE_REGEX_fullmatch :: "pystr \<Rightarrow> bool" where
  "RANGE_REGEX_fullmatch s =
     (takeWhile isdecimal_char s \<noteq> [] \<and>
      (case dropWhile isdecimal_char s of
         [] \<Rightarrow> False
       | h # b \<Rightarrow> h = 45 \<and> b \<noteq> [] \<and> list_all isdecimal_char b))"

text \<open>The directive: \<^verbatim>\<open>itype\<close> is an integer step, a string, or None.\<close>

datatype itype = IInt int | IStr pystr

definition regularize :: "pystr \<Rightarrow> pystr list" where
  "regularize hnr = [hnr]"

definition sanitize :: "config \<Rightarrow> pystr \<Rightarrow> pystr list" where
  "sanitize cfg v =
     concat (map regularize (filter (\<lambda>hnr. hnr \<noteq> []) (split_regexp cfg v)))"

definition expand_range :: "itype \<Rightarrow> pystr \<Rightarrow> pyerror + int list" where
  "expand_range it hnr =
     (case py_split 45 hnr of
        [a, b] \<Rightarrow>
          (case py_int a of
             Inl e \<Rightarrow> Inl e
           | Inr first_raw \<Rightarrow>
               (case py_int b of
                  Inl e \<Rightarrow> Inl e
                | Inr last_n \<Rightarrow>
                    (let step = (case it of IInt n \<Rightarrow> n | IStr s \<Rightarrow> 2);
                         first_n = (case it of
                                    IInt n \<Rightarrow> first_raw
                                  | IStr s \<Rightarrow>
                                      if (s = py ''even'' \<and> first_raw mod 2 = 1)
                                         \<or> (s = py ''odd'' \<and> first_raw mod 2 = 0)
                                      then first_raw + 1 else first_raw)
                     in case py_truediv (last_n + 1 - first_n) step of
                          Inl e \<Rightarrow> Inl e
                        | Inr q \<Rightarrow>
                            if q < 10 then py_range first_n (last_n + 1) step else Inr [])))
      | _ \<Rightarrow> Inl ValueError)"

text \<open>
  Lines 54 to 63 of \<^verbatim>\<open>__call__\<close>: the name of the first item of kind interpolation,
  turned into the directive.
\<close>

definition first_interpolation :: "'e PlaceName list \<Rightarrow> pystr option" where
  "first_interpolation addr =
     map_option name (find (\<lambda>i. kind i = py ''interpolation'') addr)"

definition get_itype :: "config \<Rightarrow> 'e PlaceName list \<Rightarrow> pyerror + itype option" where
  "get_itype cfg addr =
     (if expand_interpolations cfg then
        (case first_interpolation addr of
           None \<Rightarrow> Inr None
         | Some t \<Rightarrow>
             if t = py ''all'' then Inr (Some (IInt 1))
             else if length t = 1 \<and> isdigit t then
               (case py_int t of Inl e \<Rightarrow> Inl e | Inr n \<Rightarrow> Inr (Some (IInt n)))
             else if t \<noteq> py ''odd'' \<and> t \<noteq> py ''even'' then Inr None
             else Inr (Some (IStr t)))
      else Inr None)"

text \<open>
  Lines 68 and 69: the numbers of the range when there is a directive and the value
  matches the range pattern; the empty list stands for ``no expansion'', which is how
  the code treats an empty result too.
\<close>

definition try_expand :: "itype option \<Rightarrow> pystr \<Rightarrow> pyerror + int list" where
  "try_expand it v =
     (case it of
        None \<Rightarrow> Inr []
      | Some t \<Rightarrow> if RANGE_REGEX_fullmatch v then expand_range t v else Inr [])"

text \<open>
  One turn of the loop of lines 66 to 82, as the pair of the items it appends to
  \<^verbatim>\<open>obj.names\<close> and the items it appends to \<^verbatim>\<open>new_address\<close>.
\<close>

definition process_item ::
  "config \<Rightarrow> itype option \<Rightarrow> 'e PlaceName \<Rightarrow> pyerror + ('e PlaceName list \<times> 'e PlaceName list)"
where
  "process_item cfg it item =
     (if filter_kind cfg (kind item) then
        (case try_expand it (name item) of
           Inl e \<Rightarrow> Inl e
         | Inr hnrs \<Rightarrow>
             if hnrs \<noteq> [] then
               Inr ([], map (\<lambda>hnr. clone_kind_name item (py ''housenumber'') (py_str hnr)) hnrs)
             else if filter_name cfg (name item) then
               Inr ([clone_kind item (py ''housenumber'')], [])
             else
               Inr ([], map (\<lambda>n. clone_kind_name item (py ''housenumber'') n)
                            (sanitize cfg (name item))))
      else if kind item \<noteq> py ''interpolation'' then Inr ([], [item])
      else Inr ([], []))"

fun rebuild ::
  "config \<Rightarrow> itype option \<Rightarrow> 'e PlaceName list \<Rightarrow> 'e PlaceName list \<times> 'e PlaceName list
     \<Rightarrow> pyerror + ('e PlaceName list \<times> 'e PlaceName list)"
where
  "rebuild cfg it [] st = Inr st"
| "rebuild cfg it (item # rest) (nms, new_address) =
     (case process_item cfg it item of
        Inl e \<Rightarrow> Inl e
      | Inr (n, a) \<Rightarrow> rebuild cfg it rest (nms @ n, new_address @ a))"

text \<open>
  \<^verbatim>\<open>__call__\<close>: the record after the call, or the exception that leaves it.
\<close>

definition call :: "config \<Rightarrow> 'e ProcessInfo \<Rightarrow> pyerror + 'e ProcessInfo" where
  "call cfg obj =
     (if address obj = [] then Inr obj
      else case get_itype cfg (address obj) of
             Inl e \<Rightarrow> Inl e
           | Inr it \<Rightarrow>
               (case rebuild cfg it (address obj) (names obj, []) of
                  Inl e \<Rightarrow> Inl e
                | Inr (nms, new_address) \<Rightarrow>
                    Inr (obj\<lparr>names := nms, address := new_address\<rparr>)))"

subsection \<open>The default configuration\<close>

text \<open>
  Modelled from the spec: the splitter that the configuration builds is not in this
  file. It partitions a string on a set of delimiter characters into its non-empty
  pieces, in order; the default delimiters are comma (44) and semicolon (59). By default
  an item is a house number when its kind is \<^verbatim>\<open>housenumber\<close>, no value is a name,
  and interpolations are expanded.
\<close>

fun split_at :: "pychar list \<Rightarrow> pystr \<Rightarrow> pystr list" where
  "split_at ds [] = [[]]"
| "split_at ds (c # cs) =
     (if c \<in> set ds then [] # split_at ds cs
      else case split_at ds cs of
             [] \<Rightarrow> [[c]]
           | w # ws \<Rightarrow> (c # w) # ws)"

definition delimiter_split :: "pychar list \<Rightarrow> pystr \<Rightarrow> pystr list" where
  "delimiter_split ds v = filter (\<lambda>t. t \<noteq> []) (split_at ds v)"

definition is_housenumber :: "pystr \<Rightarrow> bool" where
  "is_housenumber k = (k = py ''housenumber'')"

definition fail_all :: "pystr \<Rightarrow> bool" where
  "fail_all v = False"

definition default_config :: config where
  "default_config =
     \<lparr>filter_kind = is_housenumber, split_regexp = delimiter_split [44, 59],
      filter_name = fail_all, expand_interpolations = True\<rparr>"

text \<open>
  A configuration whose \<^verbatim>\<open>filter-kind\<close> also matches the kind \<^verbatim>\<open>interpolation\<close>;
  the option takes any list of regular expressions.
\<close>

definition is_housenumber_or_interpolation :: "pystr \<Rightarrow> bool" where
  "is_housenumber_or_interpolation k = (k = py ''housenumber'' \<or> k = py ''interpolation'')"

definition interpolation_config :: config where
  "interpolation_config =
     \<lparr>filter_kind = is_housenumber_or_interpolation, split_regexp = delimiter_split [44, 59],
      filter_name = fail_all, expand_interpolations = True\<rparr>"

text \<open>
  A configuration whose \<^verbatim>\<open>convert-to-name\<close> fully matches the value \<^verbatim>\<open>private\<close>.
\<close>

definition is_private :: "pystr \<Rightarrow> bool" where
  "is_private v = (v = py ''private'')"

definition private_config :: config where
  "private_config =
     \<lparr>filter_kind = is_housenumber, split_regexp = delimiter_split [44, 59],
      filter_name = is_private, expand_interpolations = True\<rparr>"

text \<open>An item without further attributes, for concrete records.\<close>

definition mk_item :: "string \<Rightarrow> string \<Rightarrow> unit PlaceName" where
  "mk_item k v = \<lparr>name = py v, kind = py k, extra = ()\<rparr>"

definition mk_record :: "unit PlaceName list \<Rightarrow> unit PlaceName list \<Rightarrow> unit ProcessInfo" where
  "mk_record nms addr = \<lparr>names = nms, address = addr\<rparr>"

subsection \<open>What one item contributes\<close>

text \<open>
  The items that the turn of the loop for \<open>item\<close> appends to the names and to the new
  address, read off \<open>process_item\<close>.
\<close>

definition names_items :: "config \<Rightarrow> itype option \<Rightarrow> 'e PlaceName \<Rightarrow> 'e PlaceName list" where
  "names_items cfg it item =
     (case process_item cfg it item of Inl e \<Rightarrow> [] | Inr (n, a) \<Rightarrow> n)"

definition address_items :: "config \<Rightarrow> itype option \<Rightarrow> 'e PlaceName \<Rightarrow> 'e PlaceName list" where
  "address_items cfg it item =
     (case process_item cfg it item of Inl e \<Rightarrow> [] | Inr (n, a) \<Rightarrow> a)"

text \<open>
  The sequence that section 4.4 of the specification describes: \<open>first\<close>,
  \<open>first + step\<close>, \<open>first + 2 * step\<close> and so on, up to the last value that does not
  exceed \<open>last\<close>.
\<close>

definition ascending :: "int \<Rightarrow> int \<Rightarrow> int \<Rightarrow> int list" where
  "ascending first_n step last_n =
     map (\<lambda>k. first_n + int k * step) [0..<nat ((last_n - first_n) div step + 1)]"

text \<open>
  The form in which the loop leaves an item when nothing is expanded, split or moved to
  the names: a house number gets the kind \<^verbatim>\<open>housenumber\<close>, any other item stays as it
  is. An address is regular when it has no interpolation item and every house number in
  it has a value that is no name and is a single token for the splitter.
\<close>

definition regular_form :: "config \<Rightarrow> 'e PlaceName \<Rightarrow> 'e PlaceName" where
  "regular_form cfg item =
     (if filter_kind cfg (kind item) then item\<lparr>kind := py ''housenumber''\<rparr> else item)"

definition regular :: "config \<Rightarrow> 'e PlaceName list \<Rightarrow> bool" where
  "regular cfg addr =
     ((\<forall>i\<in>set addr. kind i \<noteq> py ''interpolation'')
      \<and> (\<forall>i\<in>set addr. filter_kind cfg (kind i) \<longrightarrow>
             \<not> filter_name cfg (name i) \<and> sanitize cfg (name i) = [name i]))"

text \<open>
  The canonical decimal representation of a non-negative integer: ASCII digits only, no
  leading zero (the single digit \<^verbatim>\<open>0\<close> apart), and the integer as the value in
  base ten.
\<close>

definition canonical_decimal :: "pystr \<Rightarrow> int \<Rightarrow> bool" where
  "canonical_decimal s n =
     (s \<noteq> [] \<and> list_all (\<lambda>c. 48 \<le> c \<and> c \<le> 57) s \<and> ((hd s = 48) = (s = [48]))
      \<and> int (foldl (\<lambda>acc c. 10 * acc + (c - 48)) 0 s) = n)"

section \<open>Evaluation on concrete records\<close>

lemmas digit_defs = decimal_value_def decimal_zeros_def isdecimal_char_def isdigit_char_def
  isdigit_def other_digit_ranges_def

lemmas run_defs = call_def get_itype_def first_interpolation_def process_item_def
  try_expand_def expand_range_def RANGE_REGEX_fullmatch_def py_int_def int_max_str_digits_def
  py_truediv_def
  float_overflow_def py_range_def py_str_def sanitize_def regularize_def clone_kind_def
  clone_kind_name_def default_config_def is_housenumber_def fail_all_def
  delimiter_split_def py_def upt_conv_Cons decimal_digits.simps mk_item_def mk_record_def
  interpolation_config_def is_housenumber_or_interpolation_def private_config_def
  is_private_def

lemma housenumber_not_interpolation: "py ''housenumber'' \<noteq> py ''interpolation''"
  by (simp add: py_def)

lemma run_even_11_16:
  "call default_config
     (mk_record [] [mk_item ''interpolation'' ''even'', mk_item ''housenumber'' ''11-16'',
                    mk_item ''street'' ''Main''])
   = Inr (mk_record [] [mk_item ''housenumber'' ''12'', mk_item ''housenumber'' ''14'',
                        mk_item ''housenumber'' ''16'', mk_item ''street'' ''Main''])"
  by (simp add: run_defs digit_defs)

section \<open>Runtime errors\<close>

text \<open>
  Claim C1 says that no call raises. The interpolation token \<^verbatim>\<open>0\<close> is a single digit,
  so the directive becomes the step 0, and the division in \<^verbatim>\<open>_expand_range\<close> raises
  ZeroDivisionError on the first house number that is a range: the call on the record
  with the items interpolation \<^verbatim>\<open>0\<close> and housenumber \<^verbatim>\<open>1-3\<close> does not return.
\<close>

theorem call_step_zero_raises:
  "call default_config
     (mk_record [] [mk_item ''interpolation'' ''0'', mk_item ''housenumber'' ''1-3''])
   = Inl ZeroDivisionError"
  by (simp add: run_defs digit_defs)

section \<open>The loop over the address\<close>

lemma process_item_no_interpolation:
  assumes "process_item cfg it item = Inr (n, a)"
  shows "\<forall>i\<in>set a. kind i \<noteq> py ''interpolation''"
  using assms housenumber_not_interpolation
  by (auto simp: process_item_def clone_kind_name_def clone_kind_def
           split: if_splits sum.splits)

lemma rebuild_no_interpolation:
  assumes "rebuild cfg it addr (nms, acc) = Inr (nms', acc')"
    and "\<forall>i\<in>set acc. kind i \<noteq> py ''interpolation''"
  shows "\<forall>i\<in>set acc'. kind i \<noteq> py ''interpolation''"
  using assms
proof (induction addr arbitrary: nms acc)
  case Nil
  then show ?case by simp
next
  case (Cons item rest)
  from Cons.prems(1) obtain n a where
    p: "process_item cfg it item = Inr (n, a)"
    and r: "rebuild cfg it rest (nms @ n, acc @ a) = Inr (nms', acc')"
    by (auto split: sum.splits)
  have "\<forall>i\<in>set (acc @ a). kind i \<noteq> py ''interpolation''"
    using process_item_no_interpolation [OF p] Cons.prems(2) by auto
  with Cons.IH [OF r] show ?case by blast
qed

lemma call_cases:
  assumes "call cfg obj = Inr obj'"
  shows "(address obj = [] \<and> obj' = obj) \<or>
         (address obj \<noteq> [] \<and> (\<exists>it nms na. get_itype cfg (address obj) = Inr it \<and>
            rebuild cfg it (address obj) (names obj, []) = Inr (nms, na) \<and>
            obj' = obj\<lparr>names := nms, address := na\<rparr>))"
  using assms by (auto simp: call_def split: if_splits sum.splits)

lemma rebuild_shape:
  assumes "rebuild cfg it addr (nms, acc) = Inr (nms', acc')"
  shows "nms' = nms @ concat (map (names_items cfg it) addr)
       \<and> acc' = acc @ concat (map (address_items cfg it) addr)"
  using assms
proof (induction addr arbitrary: nms acc)
  case Nil
  then show ?case by simp
next
  case (Cons item rest)
  from Cons.prems obtain n a where
    p: "process_item cfg it item = Inr (n, a)"
    and r: "rebuild cfg it rest (nms @ n, acc @ a) = Inr (nms', acc')"
    by (auto split: sum.splits)
  from Cons.IH [OF r] p show ?case
    by (simp add: names_items_def address_items_def)
qed

subsection \<open>Interpolation items\<close>

text \<open>
  Claim C5: after a call that returns, the address of the record has no item of kind
  \<^verbatim>\<open>interpolation\<close>, whatever the configuration and the record.
\<close>

theorem no_interpolation_after_call:
  assumes "call cfg obj = Inr obj'"
  shows "\<forall>i\<in>set (address obj'). kind i \<noteq> py ''interpolation''"
  using call_cases [OF assms] rebuild_no_interpolation [of cfg _ "address obj" "names obj" "[]"]
  by fastforce

theorem no_interpolation_after_call_witness:
  "call default_config
     (mk_record [] [mk_item ''interpolation'' ''even'', mk_item ''housenumber'' ''11-16'',
                    mk_item ''street'' ''Main''])
   = Inr (mk_record [] [mk_item ''housenumber'' ''12'', mk_item ''housenumber'' ''14'',
                        mk_item ''housenumber'' ''16'', mk_item ''street'' ''Main''])
   \<and> list_all (\<lambda>i. kind i \<noteq> py ''interpolation'')
        (address (mk_record [] [mk_item ''housenumber'' ''12'',
          mk_item ''housenumber'' ''14'', mk_item ''housenumber'' ''16'',
          mk_item ''street'' ''Main'']))"
proof -
  have a: "\<forall>i\<in>set (address (mk_record [] [mk_item ''housenumber'' ''12'',
          mk_item ''housenumber'' ''14'', mk_item ''housenumber'' ''16'',
          mk_item ''street'' ''Main''])). kind i \<noteq> py ''interpolation''"
    by (rule no_interpolation_after_call [OF run_even_11_16])
  have b: "list_all (\<lambda>i. kind i \<noteq> py ''interpolation'')
        (address (mk_record [] [mk_item ''housenumber'' ''12'',
          mk_item ''housenumber'' ''14'', mk_item ''housenumber'' ''16'',
          mk_item ''street'' ''Main'']))"
    using a unfolding list_all_iff .
  from run_even_11_16 b show ?thesis by (rule conjI)
qed

text \<open>
  Claim C4 says that an item of kind \<^verbatim>\<open>interpolation\<close> is dropped even when the
  configured filter for house number kinds matches \<^verbatim>\<open>interpolation\<close>. The loop
  tests the filter first, so such an item is treated as a house number: with that
  filter the record with the single item interpolation \<^verbatim>\<open>even\<close> comes back with the
  item housenumber \<^verbatim>\<open>even\<close> in its address.
\<close>

theorem interpolation_kept_counterexample:
  "call interpolation_config (mk_record [] [mk_item ''interpolation'' ''even''])
   = Inr (mk_record [] [mk_item ''housenumber'' ''even''])"
  by (simp add: run_defs digit_defs)

lemma process_item_interpolation:
  assumes "\<not> filter_kind cfg (py ''interpolation'')" and "kind item = py ''interpolation''"
  shows "process_item cfg it item = Inr ([], [])"
  using assms by (simp add: process_item_def)

lemma rebuild_filter_interpolation:
  assumes "\<not> filter_kind cfg (py ''interpolation'')"
  shows "rebuild cfg it addr st
       = rebuild cfg it (filter (\<lambda>i. kind i \<noteq> py ''interpolation'') addr) st"
proof (induction addr arbitrary: st)
  case Nil
  then show ?case by simp
next
  case (Cons item rest)
  obtain nms acc where st: "st = (nms, acc)" by (cases st)
  show ?case
  proof (cases "kind item = py ''interpolation''")
    case True
    then have "process_item cfg it item = Inr ([], [])"
      by (rule process_item_interpolation [OF assms])
    with True Cons.IH st show ?thesis by simp
  next
    case False
    with Cons.IH st show ?thesis by (simp split: sum.splits)
  qed
qed

text \<open>
  Claim C4, amended: when the filter for house number kinds does not match
  \<^verbatim>\<open>interpolation\<close>, every item of that kind is dropped: its turn of the loop adds
  nothing to the names and nothing to the address, and the loop yields what it yields on
  the address without these items.
\<close>

theorem interpolation_items_dropped:
  assumes "\<not> filter_kind cfg (py ''interpolation'')"
  shows "rebuild cfg it addr st
           = rebuild cfg it (filter (\<lambda>i. kind i \<noteq> py ''interpolation'') addr) st
       \<and> (kind item = py ''interpolation'' \<longrightarrow> process_item cfg it item = Inr ([], []))"
  using rebuild_filter_interpolation [OF assms] process_item_interpolation [OF assms]
  by blast

theorem interpolation_items_dropped_witness:
  "\<not> filter_kind default_config (py ''interpolation'')
   \<and> rebuild default_config (Some (IStr (py ''even'')))
        [mk_item ''interpolation'' ''even'', mk_item ''housenumber'' ''11-16''] ([], [])
     = rebuild default_config (Some (IStr (py ''even'')))
        [mk_item ''housenumber'' ''11-16''] ([], [])
   \<and> process_item default_config (Some (IStr (py ''even''))) (mk_item ''interpolation'' ''even'')
     = Inr ([], [])"
proof -
  have h: "\<not> filter_kind default_config (py ''interpolation'')"
    by (simp add: default_config_def is_housenumber_def py_def)
  have k: "kind (mk_item ''interpolation'' ''even'') = py ''interpolation''"
    by (simp add: mk_item_def)
  have f: "filter (\<lambda>i. kind i \<noteq> py ''interpolation'')
             [mk_item ''interpolation'' ''even'', mk_item ''housenumber'' ''11-16'']
           = [mk_item ''housenumber'' ''11-16'']"
    by (simp add: mk_item_def py_def)
  note t = interpolation_items_dropped [OF h, of "Some (IStr (py ''even''))"
      "[mk_item ''interpolation'' ''even'', mk_item ''housenumber'' ''11-16'']" "([], [])"
      "mk_item ''interpolation'' ''even''"]
  from t have a: "rebuild default_config (Some (IStr (py ''even'')))
        [mk_item ''interpolation'' ''even'', mk_item ''housenumber'' ''11-16''] ([], [])
     = rebuild default_config (Some (IStr (py ''even'')))
        [mk_item ''housenumber'' ''11-16''] ([], [])"
    unfolding f by (rule conjunct1)
  from t k have b: "process_item default_config (Some (IStr (py ''even'')))
      (mk_item ''interpolation'' ''even'') = Inr ([], [])"
    by blast
  from h a b show ?thesis by blast
qed

subsection \<open>Names\<close>

lemma names_items_cases:
  "names_items cfg it item =
     (if filter_kind cfg (kind item) \<and> try_expand it (name item) = Inr []
         \<and> filter_name cfg (name item)
      then [item\<lparr>kind := py ''housenumber''\<rparr>] else [])"
  by (auto simp: names_items_def process_item_def clone_kind_def split: sum.splits)

lemma address_items_reclassified:
  assumes "filter_kind cfg (kind item)" and "try_expand it (name item) = Inr []"
    and "filter_name cfg (name item)"
  shows "address_items cfg it item = []"
  using assms by (simp add: address_items_def process_item_def)

lemma call_shape:
  assumes "call cfg obj = Inr obj'" and "get_itype cfg (address obj) = Inr it"
  shows "names obj' = names obj @ concat (map (names_items cfg it) (address obj))
       \<and> address obj' = concat (map (address_items cfg it) (address obj))"
  using call_cases [OF assms(1)]
proof
  assume "address obj = [] \<and> obj' = obj"
  then show ?thesis by simp
next
  assume "address obj \<noteq> [] \<and> (\<exists>it nms na. get_itype cfg (address obj) = Inr it \<and>
            rebuild cfg it (address obj) (names obj, []) = Inr (nms, na) \<and>
            obj' = obj\<lparr>names := nms, address := na\<rparr>)"
  then obtain nms na where
    r: "rebuild cfg it (address obj) (names obj, []) = Inr (nms, na)"
    and o: "obj' = obj\<lparr>names := nms, address := na\<rparr>"
    using assms(2) by auto
  from rebuild_shape [OF r] o show ?thesis by simp
qed

text \<open>
  Claim C6: after a call that returns, the names are the names before the call followed
  by what the items of the address contribute, in order. An item that is classified as a
  house number, is not expanded as a range and whose value is a name contributes exactly
  its copy of kind \<^verbatim>\<open>housenumber\<close> (value and further attributes unchanged) to the
  names and nothing to the address; every other item contributes nothing to the names.
\<close>

theorem name_reclassification:
  assumes "call cfg obj = Inr obj'" and "get_itype cfg (address obj) = Inr it"
  shows "names obj' = names obj @ concat (map (names_items cfg it) (address obj))
       \<and> (\<forall>item. filter_kind cfg (kind item) \<and> try_expand it (name item) = Inr []
                   \<and> filter_name cfg (name item)
              \<longrightarrow> names_items cfg it item = [item\<lparr>kind := py ''housenumber''\<rparr>]
                  \<and> address_items cfg it item = [])
       \<and> (\<forall>item. \<not> (filter_kind cfg (kind item) \<and> try_expand it (name item) = Inr []
                   \<and> filter_name cfg (name item))
              \<longrightarrow> names_items cfg it item = [])"
  using call_shape [OF assms]
  by (simp add: names_items_cases address_items_reclassified)

lemma run_private:
  "call private_config
     (mk_record [mk_item ''name'' ''Villa'']
        [mk_item ''housenumber'' ''private'', mk_item ''street'' ''Main''])
   = Inr (mk_record [mk_item ''name'' ''Villa'', mk_item ''housenumber'' ''private'']
        [mk_item ''street'' ''Main''])"
  by (simp add: run_defs digit_defs)

lemma itype_private:
  "get_itype private_config
     (address (mk_record [mk_item ''name'' ''Villa'']
        [mk_item ''housenumber'' ''private'', mk_item ''street'' ''Main''])) = Inr None"
  by (simp add: run_defs digit_defs)

theorem name_reclassification_witness:
  "call private_config
     (mk_record [mk_item ''name'' ''Villa'']
        [mk_item ''housenumber'' ''private'', mk_item ''street'' ''Main''])
   = Inr (mk_record [mk_item ''name'' ''Villa'', mk_item ''housenumber'' ''private'']
        [mk_item ''street'' ''Main''])
   \<and> names_items private_config None (mk_item ''housenumber'' ''private'')
       = [mk_item ''housenumber'' ''private'']
   \<and> address_items private_config None (mk_item ''housenumber'' ''private'') = []
   \<and> names_items private_config None (mk_item ''street'' ''Main'') = []"
proof -
  note t = name_reclassification [OF run_private itype_private]
  have c: "filter_kind private_config (kind (mk_item ''housenumber'' ''private''))
      \<and> try_expand None (name (mk_item ''housenumber'' ''private'')) = Inr []
      \<and> filter_name private_config (name (mk_item ''housenumber'' ''private''))"
    by (simp add: run_defs)
  have d: "\<not> (filter_kind private_config (kind (mk_item ''street'' ''Main''))
      \<and> try_expand None (name (mk_item ''street'' ''Main'')) = Inr []
      \<and> filter_name private_config (name (mk_item ''street'' ''Main'')))"
    by (simp add: run_defs)
  have e: "(mk_item ''housenumber'' ''private'')\<lparr>kind := py ''housenumber''\<rparr>
      = mk_item ''housenumber'' ''private''"
    by (simp add: mk_item_def)
  from t c have "names_items private_config None (mk_item ''housenumber'' ''private'')
       = [(mk_item ''housenumber'' ''private'')\<lparr>kind := py ''housenumber''\<rparr>]
     \<and> address_items private_config None (mk_item ''housenumber'' ''private'') = []"
    by blast
  moreover from t d have "names_items private_config None (mk_item ''street'' ''Main'') = []"
    by blast
  ultimately show ?thesis using run_private e by simp
qed

subsection \<open>Order of the address\<close>

lemma address_items_passthrough:
  assumes "\<not> filter_kind cfg (kind item)" and "kind item \<noteq> py ''interpolation''"
  shows "address_items cfg it item = [item]"
  using assms by (simp add: address_items_def process_item_def)

lemma subseq_filter_concat_map:
  assumes "\<And>i. P i \<Longrightarrow> f i = [i]"
  shows "subseq (filter P xs) (concat (map f xs))"
proof (induction xs)
  case Nil
  then show ?case by simp
next
  case (Cons x xs)
  show ?case
  proof (cases "P x")
    case True
    with assms have "f x = [x]" by simp
    with True Cons.IH show ?thesis by simp
  next
    case False
    with Cons.IH show ?thesis by (simp add: list_emb_append2)
  qed
qed

text \<open>
  Claim C7: after a call that returns, the address is the concatenation, in the order
  of the original items, of what each item contributes; an item whose kind is neither
  classified as a house number nor \<^verbatim>\<open>interpolation\<close> contributes itself, unchanged. So
  these items keep their relative order, and the items emitted for a house number stand
  where their source item stood.
\<close>

theorem order_preservation:
  assumes "call cfg obj = Inr obj'" and "get_itype cfg (address obj) = Inr it"
  shows "address obj' = concat (map (address_items cfg it) (address obj))
       \<and> (\<forall>item. \<not> filter_kind cfg (kind item) \<and> kind item \<noteq> py ''interpolation''
              \<longrightarrow> address_items cfg it item = [item])
       \<and> subseq (filter (\<lambda>i. \<not> filter_kind cfg (kind i) \<and> kind i \<noteq> py ''interpolation'')
                    (address obj))
                (address obj')"
proof -
  have a: "address obj' = concat (map (address_items cfg it) (address obj))"
    using call_shape [OF assms] by simp
  have b: "subseq (filter (\<lambda>i. \<not> filter_kind cfg (kind i) \<and> kind i \<noteq> py ''interpolation'')
                    (address obj))
             (concat (map (address_items cfg it) (address obj)))"
    by (rule subseq_filter_concat_map) (simp add: address_items_passthrough)
  from a b show ?thesis by (simp add: address_items_passthrough)
qed

lemma itype_even_11_16:
  "get_itype default_config
     (address (mk_record [] [mk_item ''interpolation'' ''even'',
        mk_item ''housenumber'' ''11-16'', mk_item ''street'' ''Main'']))
   = Inr (Some (IStr (py ''even'')))"
  by (simp add: run_defs digit_defs)

theorem order_preservation_witness:
  "call default_config
     (mk_record [] [mk_item ''interpolation'' ''even'', mk_item ''housenumber'' ''11-16'',
                    mk_item ''street'' ''Main''])
   = Inr (mk_record [] [mk_item ''housenumber'' ''12'', mk_item ''housenumber'' ''14'',
                        mk_item ''housenumber'' ''16'', mk_item ''street'' ''Main''])
   \<and> address_items default_config (Some (IStr (py ''even''))) (mk_item ''street'' ''Main'')
       = [mk_item ''street'' ''Main'']
   \<and> subseq [mk_item ''street'' ''Main'']
        [mk_item ''housenumber'' ''12'', mk_item ''housenumber'' ''14'',
         mk_item ''housenumber'' ''16'', mk_item ''street'' ''Main'']"
proof -
  note t = order_preservation [OF run_even_11_16 itype_even_11_16]
  have c: "\<not> filter_kind default_config (kind (mk_item ''street'' ''Main''))
      \<and> kind (mk_item ''street'' ''Main'') \<noteq> py ''interpolation''"
    by (simp add: run_defs)
  have f: "filter (\<lambda>i. \<not> filter_kind default_config (kind i) \<and> kind i \<noteq> py ''interpolation'')
             (address (mk_record [] [mk_item ''interpolation'' ''even'',
                mk_item ''housenumber'' ''11-16'', mk_item ''street'' ''Main'']))
           = [mk_item ''street'' ''Main'']"
    by (simp add: run_defs)
  from t c have a: "address_items default_config (Some (IStr (py ''even'')))
      (mk_item ''street'' ''Main'') = [mk_item ''street'' ''Main'']"
    by blast
  from t have "subseq (filter (\<lambda>i. \<not> filter_kind default_config (kind i) \<and> kind i \<noteq> py ''interpolation'')
             (address (mk_record [] [mk_item ''interpolation'' ''even'',
                mk_item ''housenumber'' ''11-16'', mk_item ''street'' ''Main''])))
          (address (mk_record [] [mk_item ''housenumber'' ''12'', mk_item ''housenumber'' ''14'',
                        mk_item ''housenumber'' ''16'', mk_item ''street'' ''Main'']))"
    by blast
  then have b: "subseq [mk_item ''street'' ''Main'']
        [mk_item ''housenumber'' ''12'', mk_item ''housenumber'' ''14'',
         mk_item ''housenumber'' ''16'', mk_item ''street'' ''Main'']"
    unfolding f by (simp add: mk_record_def)
  from run_even_11_16 a b show ?thesis by blast
qed

section \<open>Idempotence\<close>

lemma get_itype_no_interpolation:
  assumes "\<forall>i\<in>set addr. kind i \<noteq> py ''interpolation''"
  shows "get_itype cfg addr = Inr None"
proof -
  have "find (\<lambda>i. kind i = py ''interpolation'') addr = None"
    using assms by (simp add: find_None_iff)
  then show ?thesis by (simp add: get_itype_def first_interpolation_def)
qed

lemma process_item_regular:
  assumes "kind item \<noteq> py ''interpolation''"
    and "filter_kind cfg (kind item) \<longrightarrow>
           \<not> filter_name cfg (name item) \<and> sanitize cfg (name item) = [name item]"
  shows "process_item cfg None item = Inr ([], [regular_form cfg item])"
  using assms
  by (simp add: process_item_def try_expand_def regular_form_def clone_kind_name_def)

lemma rebuild_regular:
  assumes "regular cfg addr"
  shows "rebuild cfg None addr (nms, acc) = Inr (nms, acc @ map (regular_form cfg) addr)"
  using assms
proof (induction addr arbitrary: acc)
  case Nil
  then show ?case by simp
next
  case (Cons item rest)
  from Cons.prems have r: "regular cfg rest"
    by (simp add: regular_def)
  from Cons.prems have "process_item cfg None item = Inr ([], [regular_form cfg item])"
    by (intro process_item_regular) (simp_all add: regular_def)
  with Cons.IH [OF r] show ?case by simp
qed

lemma call_regular:
  assumes "regular cfg (address obj)"
  shows "call cfg obj = Inr (obj\<lparr>address := map (regular_form cfg) (address obj)\<rparr>)"
proof (cases "address obj = []")
  case True
  then show ?thesis by (simp add: call_def)
next
  case False
  have "get_itype cfg (address obj) = Inr None"
    using assms by (intro get_itype_no_interpolation) (simp add: regular_def)
  with False rebuild_regular [OF assms, of "names obj" "[]"] show ?thesis
    by (simp add: call_def)
qed

lemma regular_form_idem: "regular_form cfg (regular_form cfg item) = regular_form cfg item"
  by (simp add: regular_form_def)

lemma regular_map_regular_form:
  assumes "regular cfg addr"
  shows "regular cfg (map (regular_form cfg) addr)"
  using assms housenumber_not_interpolation
  by (auto simp: regular_def regular_form_def)

text \<open>
  Claim C8: when the address has no interpolation item and every item classified as a
  house number has a value that is no name and is a single token for the splitter (other
  items are of any kind), the call returns, and a second call on its result returns that
  result unchanged, names and address alike.
\<close>

theorem call_idempotent:
  assumes "\<forall>i\<in>set (address obj). kind i \<noteq> py ''interpolation''"
    and "\<forall>i\<in>set (address obj). filter_kind cfg (kind i) \<longrightarrow>
           \<not> filter_name cfg (name i) \<and> sanitize cfg (name i) = [name i]"
  shows "\<exists>obj1. call cfg obj = Inr obj1 \<and> call cfg obj1 = Inr obj1"
proof -
  let ?obj1 = "obj\<lparr>address := map (regular_form cfg) (address obj)\<rparr>"
  from assms have r: "regular cfg (address obj)"
    by (simp add: regular_def)
  have one: "call cfg obj = Inr ?obj1"
    by (rule call_regular [OF r])
  have "regular cfg (address ?obj1)"
    using regular_map_regular_form [OF r] by simp
  from call_regular [OF this] have two: "call cfg ?obj1 = Inr ?obj1"
    by (simp add: regular_form_idem)
  from one two show ?thesis by blast
qed

theorem call_idempotent_witness:
  "call default_config
      (mk_record [] [mk_item ''housenumber'' ''12'', mk_item ''street'' ''Main''])
     = Inr (mk_record [] [mk_item ''housenumber'' ''12'', mk_item ''street'' ''Main''])
   \<and> (\<exists>obj1. call default_config
               (mk_record [] [mk_item ''housenumber'' ''12'', mk_item ''street'' ''Main''])
             = Inr obj1
           \<and> call default_config obj1 = Inr obj1)"
proof -
  let ?obj = "mk_record [] [mk_item ''housenumber'' ''12'', mk_item ''street'' ''Main'']"
  have a: "\<forall>i\<in>set (address ?obj). kind i \<noteq> py ''interpolation''"
    by (simp add: mk_record_def mk_item_def py_def)
  have b: "\<forall>i\<in>set (address ?obj). filter_kind default_config (kind i) \<longrightarrow>
           \<not> filter_name default_config (name i) \<and> sanitize default_config (name i) = [name i]"
    by (simp add: run_defs)
  have c: "\<exists>obj1. call default_config ?obj = Inr obj1 \<and> call default_config obj1 = Inr obj1"
    by (rule call_idempotent [OF a b])
  have d: "call default_config ?obj = Inr ?obj"
    by (simp add: run_defs digit_defs)
  from d c show ?thesis by (rule conjI)
qed

section \<open>The directive\<close>

text \<open>
  Claim C3 says that a token of one character that is not an ASCII digit disables the
  expansion. The test in the code is \<^verbatim>\<open>isdigit\<close>, which every Unicode digit passes:
  the token made of the single character ARABIC-INDIC DIGIT THREE (code point 1635)
  gives the step 3.
\<close>

theorem unicode_digit_counterexample:
  "get_itype default_config [\<lparr>name = [1635], kind = py ''interpolation'', extra = ()\<rparr>]
   = Inr (Some (IInt 3))"
  by (simp add: run_defs digit_defs)

lemma py_int_single:
  assumes "decimal_value c = Some d"
  shows "py_int [c] = Inr (int d)"
  using assms by (simp add: py_int_def int_max_str_digits_def)

lemma isdigit_single:
  assumes "decimal_value c = Some d"
  shows "isdigit [c]"
  using assms by (simp add: isdigit_def isdigit_char_def isdecimal_char_def)

lemma all_not_single: "py ''all'' \<noteq> [c]" "py ''odd'' \<noteq> [c]" "py ''even'' \<noteq> [c]"
  by (simp_all add: py_def)

lemma words_distinct: "py ''odd'' \<noteq> py ''all''" "py ''even'' \<noteq> py ''all''"
  by (simp_all add: py_def)

lemma words_not_digit: "\<not> (length (py ''odd'') = 1 \<and> isdigit (py ''odd''))"
  "\<not> (length (py ''even'') = 1 \<and> isdigit (py ''even''))"
  by (simp_all add: py_def)

text \<open>
  Claim C3, amended: with expansion enabled and \<open>t\<close> the token of the first
  interpolation item, the directive is the step 1 for \<^verbatim>\<open>all\<close>; the step \<open>d\<close> when
  \<open>t\<close> is one decimal digit character of value \<open>d\<close>, of any script, the ASCII digits
  among them; the parity for \<^verbatim>\<open>odd\<close> and \<^verbatim>\<open>even\<close>; and disabled for every other token
  that is not a single character accepted by \<^verbatim>\<open>isdigit\<close>, so for all tokens of several
  characters but the three words and for all single characters that are no digits.
\<close>

theorem directive_resolution:
  assumes "expand_interpolations cfg" and "first_interpolation addr = Some t"
  shows "(t = py ''all'' \<longrightarrow> get_itype cfg addr = Inr (Some (IInt 1)))
       \<and> (\<forall>c d. t = [c] \<and> decimal_value c = Some d
              \<longrightarrow> get_itype cfg addr = Inr (Some (IInt (int d))))
       \<and> (\<forall>c. t = [c] \<and> 48 \<le> c \<and> c \<le> 57
              \<longrightarrow> get_itype cfg addr = Inr (Some (IInt (int c - 48))))
       \<and> (t = py ''odd'' \<or> t = py ''even'' \<longrightarrow> get_itype cfg addr = Inr (Some (IStr t)))
       \<and> (t \<noteq> py ''all'' \<and> \<not> (length t = 1 \<and> isdigit t) \<and> t \<noteq> py ''odd'' \<and> t \<noteq> py ''even''
              \<longrightarrow> get_itype cfg addr = Inr None)"
proof -
  have a: "t = py ''all'' \<longrightarrow> get_itype cfg addr = Inr (Some (IInt 1))"
    using assms by (simp add: get_itype_def)
  have b: "get_itype cfg addr = Inr (Some (IInt (int d)))"
    if "t = [c] \<and> decimal_value c = Some d" for c d
    using assms that all_not_single(1) [of c] py_int_single [of c d] isdigit_single [of c d]
    by (simp add: get_itype_def)
  have c: "get_itype cfg addr = Inr (Some (IInt (int c - 48)))"
    if "t = [c] \<and> 48 \<le> c \<and> c \<le> 57" for c
  proof -
    from that have "decimal_value c = Some (c - 48)"
      by (simp add: decimal_value_def decimal_zeros_def)
    with that b [of c "c - 48"] show ?thesis by (simp add: of_nat_diff)
  qed
  have d: "t = py ''odd'' \<or> t = py ''even'' \<longrightarrow> get_itype cfg addr = Inr (Some (IStr t))"
    using assms words_distinct words_not_digit by (auto simp: get_itype_def)
  have e: "t \<noteq> py ''all'' \<and> \<not> (length t = 1 \<and> isdigit t) \<and> t \<noteq> py ''odd'' \<and> t \<noteq> py ''even''
              \<longrightarrow> get_itype cfg addr = Inr None"
    using assms by (auto simp: get_itype_def)
  from a b c d e show ?thesis by blast
qed

theorem directive_resolution_witness:
  "get_itype default_config [mk_item ''interpolation'' ''all''] = Inr (Some (IInt 1))
   \<and> get_itype default_config [mk_item ''interpolation'' ''3''] = Inr (Some (IInt 3))
   \<and> get_itype default_config [mk_item ''interpolation'' ''even'']
       = Inr (Some (IStr (py ''even'')))
   \<and> get_itype default_config [mk_item ''interpolation'' ''12''] = Inr None
   \<and> get_itype default_config [mk_item ''interpolation'' ''x''] = Inr None"
proof -
  have x: "expand_interpolations default_config"
    by (simp add: default_config_def)
  have f: "first_interpolation [mk_item ''interpolation'' v] = Some (py v)" for v
    by (simp add: first_interpolation_def mk_item_def)
  have a: "get_itype default_config [mk_item ''interpolation'' ''all''] = Inr (Some (IInt 1))"
    using directive_resolution [OF x f [of "''all''"]] by blast
  have three: "py ''3'' = [51] \<and> (48::nat) \<le> 51 \<and> (51::nat) \<le> 57"
    by (simp add: py_def)
  have b: "get_itype default_config [mk_item ''interpolation'' ''3''] = Inr (Some (IInt 3))"
    using directive_resolution [OF x f [of "''3''"]] three by fastforce
  have c: "get_itype default_config [mk_item ''interpolation'' ''even'']
       = Inr (Some (IStr (py ''even'')))"
    using directive_resolution [OF x f [of "''even''"]] by blast
  have t12: "py ''12'' \<noteq> py ''all'' \<and> \<not> (length (py ''12'') = 1 \<and> isdigit (py ''12''))
      \<and> py ''12'' \<noteq> py ''odd'' \<and> py ''12'' \<noteq> py ''even''"
    by (simp add: py_def)
  have d: "get_itype default_config [mk_item ''interpolation'' ''12''] = Inr None"
    using directive_resolution [OF x f [of "''12''"]] t12 by blast
  have tx: "py ''x'' \<noteq> py ''all'' \<and> \<not> (length (py ''x'') = 1 \<and> isdigit (py ''x''))
      \<and> py ''x'' \<noteq> py ''odd'' \<and> py ''x'' \<noteq> py ''even''"
    by (simp add: py_def digit_defs)
  have e: "get_itype default_config [mk_item ''interpolation'' ''x''] = Inr None"
    using directive_resolution [OF x f [of "''x''"]] tx by blast
  from a b c d e show ?thesis by blast
qed

section \<open>Range expansion\<close>

subsection \<open>Digits, integers and the range pattern\<close>

lemma hyphen_not_decimal: "decimal_value 45 = None"
  by (simp add: decimal_value_def decimal_zeros_def)

lemma decimal_value_less_10:
  assumes "decimal_value c = Some d"
  shows "d < 10"
  using assms by (auto simp: decimal_value_def find_Some_iff)

lemma parse_decimal_all_decimal:
  assumes "parse_decimal acc s = Some n"
  shows "list_all isdecimal_char s"
  using assms
  by (induction s arbitrary: acc) (auto simp: isdecimal_char_def split: option.splits)

lemma all_decimal_parse:
  assumes "list_all isdecimal_char s"
  shows "\<exists>n. parse_decimal acc s = Some n"
  using assms
  by (induction s arbitrary: acc) (auto simp: isdecimal_char_def split: option.splits)

lemma py_int_Inr:
  assumes "py_int s = Inr n"
  shows "s \<noteq> [] \<and> list_all isdecimal_char s \<and> 0 \<le> n \<and> length s \<le> int_max_str_digits"
  using assms parse_decimal_all_decimal [of 0 s]
  by (auto simp: py_int_def split: if_splits option.splits)

lemma all_decimal_py_int:
  assumes "s \<noteq> []" and "list_all isdecimal_char s" and "length s \<le> int_max_str_digits"
  shows "\<exists>n. py_int s = Inr n"
  using assms all_decimal_parse [of s 0] by (auto simp: py_int_def)

lemma py_int_too_long:
  assumes "int_max_str_digits < length s"
  shows "py_int s = Inl ValueError"
  using assms by (auto simp: py_int_def)

lemma all_decimal_no_hyphen:
  assumes "list_all isdecimal_char s"
  shows "45 \<notin> set s"
  using assms hyphen_not_decimal by (auto simp: list_all_iff isdecimal_char_def)

lemma py_split_no_sep:
  assumes "sep \<notin> set s"
  shows "py_split sep s = [s]"
  using assms by (induction s) auto

lemma py_split_at_sep:
  assumes "sep \<notin> set a" and "sep \<notin> set b"
  shows "py_split sep (a @ sep # b) = [a, b]"
  using assms by (induction a) (auto simp: py_split_no_sep)

lemma fullmatch_intro:
  assumes "a \<noteq> []" and "b \<noteq> []"
    and "list_all isdecimal_char a" and "list_all isdecimal_char b"
  shows "RANGE_REGEX_fullmatch (a @ 45 # b)"
proof -
  have n: "\<not> isdecimal_char 45"
    by (simp add: isdecimal_char_def hyphen_not_decimal)
  from assms(3) have "\<And>x. x \<in> set a \<Longrightarrow> isdecimal_char x"
    by (simp add: list_all_iff)
  then have "takeWhile isdecimal_char (a @ 45 # b) = a"
    and "dropWhile isdecimal_char (a @ 45 # b) = 45 # b"
    using n by (simp_all add: takeWhile_append2 dropWhile_append2)
  with assms show ?thesis by (simp add: RANGE_REGEX_fullmatch_def)
qed

lemma fullmatch_elim:
  assumes "RANGE_REGEX_fullmatch s"
  shows "\<exists>a b. s = a @ 45 # b \<and> a \<noteq> [] \<and> b \<noteq> []
           \<and> list_all isdecimal_char a \<and> list_all isdecimal_char b"
proof -
  let ?a = "takeWhile isdecimal_char s"
  from assms obtain b where d: "dropWhile isdecimal_char s = 45 # b"
    and b: "b \<noteq> []" "list_all isdecimal_char b" and a: "?a \<noteq> []"
    by (auto simp: RANGE_REGEX_fullmatch_def split: list.splits)
  have "s = ?a @ 45 # b"
    using takeWhile_dropWhile_id [of isdecimal_char s] d by simp
  moreover have "list_all isdecimal_char ?a"
    by (auto simp: list_all_iff dest: set_takeWhileD)
  ultimately show ?thesis using a b by blast
qed

subsection \<open>The numbers of a range\<close>

lemma expand_range_core:
  assumes "py_int a = Inr first0" and "py_int b = Inr last_n"
    and "it = IInt n \<and> step = n \<and> first_n = first0
       \<or> it = IStr s \<and> step = 2
           \<and> first_n = (if (s = py ''even'' \<and> first0 mod 2 = 1)
                            \<or> (s = py ''odd'' \<and> first0 mod 2 = 0)
                         then first0 + 1 else first0)"
  shows "expand_range it (a @ 45 # b) =
     (case py_truediv (last_n + 1 - first_n) step of
        Inl e \<Rightarrow> Inl e
      | Inr q \<Rightarrow> if q < 10 then py_range first_n (last_n + 1) step else Inr [])"
proof -
  have "py_split 45 (a @ 45 # b) = [a, b]"
    using py_int_Inr [OF assms(1)] py_int_Inr [OF assms(2)]
    by (intro py_split_at_sep all_decimal_no_hyphen) simp_all
  with assms show ?thesis
    by (auto simp: expand_range_def Let_def split: sum.splits)
qed

lemma truediv_less_10:
  assumes "0 < step" and "\<not> float_overflow x step"
  shows "py_truediv x step = Inr (of_int x / of_int step)"
    and "(of_int x / of_int step < (10::rat)) = (x < 10 * step)"
proof -
  from assms show "py_truediv x step = Inr (of_int x / of_int step)"
    by (simp add: py_truediv_def)
  have "(of_int x / of_int step < (10::rat)) = ((of_int x :: rat) < 10 * of_int step)"
    using assms(1) by (simp add: pos_divide_less_eq)
  also have "\<dots> = ((of_int x :: rat) < of_int (10 * step))"
    by simp
  also have "\<dots> = (x < 10 * step)"
    by (simp only: of_int_less_iff)
  finally show "(of_int x / of_int step < (10::rat)) = (x < 10 * step)" .
qed

lemma py_range_ascending:
  assumes "0 < step"
  shows "py_range first_n (last_n + 1) step = Inr (ascending first_n step last_n)"
proof -
  have "(last_n + 1 - first_n + step - 1) div step = (last_n - first_n) div step + 1"
    using assms div_add_self2 [of step "last_n - first_n"]
    by (simp add: algebra_simps)
  with assms show ?thesis by (simp add: py_range_def ascending_def)
qed

lemma ascending_empty:
  assumes "0 < step"
  shows "(ascending first_n step last_n = []) = (last_n < first_n)"
proof -
  have "((last_n - first_n) div step + 1 \<le> 0) = (last_n - first_n < 0)"
    using assms pos_imp_zdiv_neg_iff [of step "last_n - first_n"] by linarith
  then show ?thesis by (simp add: ascending_def)
qed

lemma div_times_le:
  assumes "0 < (b::int)"
  shows "(a div b) * b \<le> a"
proof -
  have "a = (a div b) * b + a mod b" by simp
  moreover have "0 \<le> a mod b" using assms by simp
  ultimately show ?thesis by linarith
qed

lemma ascending_mem:
  assumes "0 < step"
  shows "(x \<in> set (ascending first_n step last_n))
       = (first_n \<le> x \<and> x \<le> last_n \<and> step dvd (x - first_n))"
proof
  assume "x \<in> set (ascending first_n step last_n)"
  then obtain k where k0: "k < nat ((last_n - first_n) div step + 1)"
    and x: "x = first_n + int k * step"
    unfolding ascending_def by auto
  from k0 have k: "int k \<le> (last_n - first_n) div step"
    by linarith
  have "int k * step \<le> ((last_n - first_n) div step) * step"
    using k assms by (intro mult_right_mono) simp_all
  also have "\<dots> \<le> last_n - first_n"
    by (rule div_times_le [OF assms])
  finally have u: "int k * step \<le> last_n - first_n" .
  have l: "0 \<le> int k * step"
    using assms by simp
  from u l x show "first_n \<le> x \<and> x \<le> last_n \<and> step dvd (x - first_n)"
    by simp
next
  assume h: "first_n \<le> x \<and> x \<le> last_n \<and> step dvd (x - first_n)"
  then obtain j where j: "x - first_n = step * j"
    by (auto simp: dvd_def)
  from h have "0 \<le> step * j"
    unfolding j [symmetric] by simp
  with assms have j0: "0 \<le> j"
    by (simp add: zero_le_mult_iff)
  have "j = (x - first_n) div step"
    using assms unfolding j by simp
  also have "\<dots> \<le> (last_n - first_n) div step"
    using h assms by (intro zdiv_mono1) simp_all
  finally have "j < (last_n - first_n) div step + 1"
    by simp
  with j0 have a: "nat j < nat ((last_n - first_n) div step + 1)"
    by simp
  have b: "x = first_n + int (nat j) * step"
    using j j0 by (simp add: mult.commute)
  have "nat j \<in> set [0..<nat ((last_n - first_n) div step + 1)]"
    using a by simp
  then have "first_n + int (nat j) * step \<in> set (ascending first_n step last_n)"
    unfolding ascending_def by (simp only: set_map) (rule imageI)
  with b show "x \<in> set (ascending first_n step last_n)"
    by simp
qed

lemma ascending_sorted:
  assumes "0 < step"
  shows "sorted_wrt (<) (ascending first_n step last_n)"
  using assms
  by (simp add: ascending_def sorted_wrt_map sorted_wrt_iff_nth_less)

lemma fullmatch_endpoints:
  assumes v: "v = a @ 45 # b" and a: "py_int a = Inr first0" and b: "py_int b = Inr last_n"
  shows "RANGE_REGEX_fullmatch v"
  unfolding v using py_int_Inr [OF a] py_int_Inr [OF b]
  by (intro fullmatch_intro) simp_all

text \<open>
  A value that matches the range pattern with a first run of digits beyond the limit of
  \<^verbatim>\<open>int\<close> makes the conversion of line 100 raise.
\<close>

lemma long_endpoint_raises:
  assumes l: "int_max_str_digits < length a" and da: "list_all isdecimal_char a"
    and nb: "b \<noteq> []" and db: "list_all isdecimal_char b"
  shows "try_expand (Some it) (a @ 45 # b) = Inl ValueError"
proof -
  from l have na: "a \<noteq> []" by auto
  have fm: "RANGE_REGEX_fullmatch (a @ 45 # b)"
    by (rule fullmatch_intro [OF na nb da db])
  have sp: "py_split 45 (a @ 45 # b) = [a, b]"
    using da db by (intro py_split_at_sep all_decimal_no_hyphen)
  have "py_int a = Inl ValueError"
    by (rule py_int_too_long [OF l])
  then have "expand_range it (a @ 45 # b) = Inl ValueError"
    by (simp add: expand_range_def sp)
  with fm show ?thesis by (simp add: try_expand_def)
qed

lemma expand_range_positive:
  assumes a: "py_int a = Inr first0" and b: "py_int b = Inr last_n"
    and d: "it = IInt n \<and> 0 < n \<and> step = n \<and> first_n = first0
          \<or> it = IStr (py ''even'') \<and> step = 2
              \<and> first_n = (if odd first0 then first0 + 1 else first0)
          \<or> it = IStr (py ''odd'') \<and> step = 2
              \<and> first_n = (if even first0 then first0 + 1 else first0)"
    and nov: "\<not> float_overflow (last_n + 1 - first_n) step"
  shows "0 < step"
    and "expand_range it (a @ 45 # b)
         = Inr (if of_int (last_n + 1 - first_n) / of_int step < (10::rat)
                then ascending first_n step last_n else [])"
proof -
  from d show sp: "0 < step" by auto
  have eo: "py ''even'' \<noteq> py ''odd''"
    by (simp add: py_def)
  have m: "odd first0 = (first0 mod 2 = 1)" "even first0 = (first0 mod 2 = 0)"
    by presburger+
  from d have c: "expand_range it (a @ 45 # b) =
     (case py_truediv (last_n + 1 - first_n) step of
        Inl e \<Rightarrow> Inl e
      | Inr q \<Rightarrow> if q < 10 then py_range first_n (last_n + 1) step else Inr [])"
  proof (elim disjE)
    assume "it = IInt n \<and> 0 < n \<and> step = n \<and> first_n = first0"
    then show ?thesis
      by (intro expand_range_core [OF a b, where n = n and s = "[]"]) simp
  next
    assume "it = IStr (py ''even'') \<and> step = 2
              \<and> first_n = (if odd first0 then first0 + 1 else first0)"
    then show ?thesis
      using eo by (intro expand_range_core [OF a b, where n = 0 and s = "py ''even''"])
        (simp add: m)
  next
    assume "it = IStr (py ''odd'') \<and> step = 2
              \<and> first_n = (if even first0 then first0 + 1 else first0)"
    then show ?thesis
      using eo by (intro expand_range_core [OF a b, where n = 0 and s = "py ''odd''"])
        (simp add: m)
  qed
  show "expand_range it (a @ 45 # b)
         = Inr (if of_int (last_n + 1 - first_n) / of_int step < (10::rat)
                then ascending first_n step last_n else [])"
    unfolding c truediv_less_10 (1) [OF sp nov] py_range_ascending [OF sp]
    by simp
qed

lemma process_item_range:
  assumes fk: "filter_kind cfg (kind item)"
    and nm: "name item = a @ 45 # b"
    and a: "py_int a = Inr first0" and b: "py_int b = Inr last_n"
    and d: "it = IInt n \<and> 0 < n \<and> step = n \<and> first_n = first0
          \<or> it = IStr (py ''even'') \<and> step = 2
              \<and> first_n = (if odd first0 then first0 + 1 else first0)
          \<or> it = IStr (py ''odd'') \<and> step = 2
              \<and> first_n = (if even first0 then first0 + 1 else first0)"
    and nov: "\<not> float_overflow (last_n + 1 - first_n) step"
  shows "process_item cfg (Some it) item =
     (if of_int (last_n + 1 - first_n) / of_int step < (10::rat) \<and> first_n \<le> last_n
      then Inr ([], map (\<lambda>h. item\<lparr>kind := py ''housenumber'', name := py_str h\<rparr>)
                        (ascending first_n step last_n))
      else if filter_name cfg (name item) then Inr ([item\<lparr>kind := py ''housenumber''\<rparr>], [])
      else Inr ([], map (\<lambda>t. item\<lparr>kind := py ''housenumber'', name := t\<rparr>)
                        (sanitize cfg (name item))))"
proof -
  have fm: "RANGE_REGEX_fullmatch (name item)"
    by (rule fullmatch_endpoints [OF nm a b])
  note e = expand_range_positive [OF a b d nov]
  have emp: "(ascending first_n step last_n = []) = (last_n < first_n)"
    by (rule ascending_empty [OF e(1)])
  have t: "try_expand (Some it) (name item)
         = Inr (if of_int (last_n + 1 - first_n) / of_int step < (10::rat)
                then ascending first_n step last_n else [])"
    using fm e(2) by (simp add: try_expand_def nm)
  show ?thesis
    unfolding process_item_def t using fk emp
    by (auto simp: clone_kind_def clone_kind_name_def)
qed

text \<open>
  Claim C2 says that, whenever the count is below 10, the items emitted for a range are
  exactly the ascending integers from \<open>first\<close> that do not exceed \<open>last\<close>. For a
  descending range the count is below 10 and that sequence is empty, but the loop treats
  an empty expansion as no expansion: with the directive \<^verbatim>\<open>all\<close> the item housenumber
  \<^verbatim>\<open>16-12\<close> has the count -3 and an empty sequence, and it is emitted as the single
  item housenumber \<^verbatim>\<open>16-12\<close>.
\<close>

theorem descending_range_counterexample:
  "call default_config
     (mk_record [] [mk_item ''interpolation'' ''all'', mk_item ''housenumber'' ''16-12''])
   = Inr (mk_record [] [mk_item ''housenumber'' ''16-12''])
   \<and> py_truediv (12 + 1 - 16) 1 = Inr (- 3) \<and> (- 3 :: rat) < 10
   \<and> ascending 16 1 12 = []"
  by (simp add: run_defs digit_defs ascending_def)

text \<open>
  Claim C2, amended: let the value of an item classified as a house number be a run of
  decimal digits that \<^verbatim>\<open>int\<close> converts to \<open>first0\<close> (so of at most 4300 digits), a
  hyphen, and a run of decimal digits that \<^verbatim>\<open>int\<close> converts to \<open>last\<close>, and let the
  directive be a step \<open>n\<close> from 1 to 9 (then \<open>step = n\<close> and \<open>first = first0\<close>) or a
  parity (then \<open>step = 2\<close>, and \<open>first\<close> is \<open>first0 + 1\<close> when the parity is
  \<^verbatim>\<open>even\<close> and \<open>first0\<close> is odd or the parity is \<^verbatim>\<open>odd\<close> and \<open>first0\<close> is even, and
  \<open>first0\<close> otherwise), with a count \<open>(last + 1 - first) / step\<close> that fits a float.
  If the count is below 10 and \<open>first\<close> does not exceed \<open>last\<close>, the turn of the loop
  appends to the address exactly one item for each of \<open>first\<close>, \<open>first + step\<close>,
  \<open>first + 2 * step\<close>, ... not exceeding \<open>last\<close>, in this order: a copy of the item
  with the kind \<^verbatim>\<open>housenumber\<close> and the decimal string of the integer as its value.
  Otherwise the item is not expanded: when its value is a name it goes to the names with
  the kind \<^verbatim>\<open>housenumber\<close>, and if not it is split into its tokens.
\<close>

theorem range_expansion:
  assumes "filter_kind cfg (kind item)"
    and "name item = a @ 45 # b"
    and "py_int a = Inr first0" and "py_int b = Inr last_n"
    and "it = IInt n \<and> 0 < n \<and> n \<le> 9 \<and> step = n \<and> first_n = first0
          \<or> it = IStr (py ''even'') \<and> step = 2
              \<and> first_n = (if odd first0 then first0 + 1 else first0)
          \<or> it = IStr (py ''odd'') \<and> step = 2
              \<and> first_n = (if even first0 then first0 + 1 else first0)"
    and "\<not> float_overflow (last_n + 1 - first_n) step"
  shows "process_item cfg (Some it) item =
     (if of_int (last_n + 1 - first_n) / of_int step < (10::rat) \<and> first_n \<le> last_n
      then Inr ([], map (\<lambda>h. item\<lparr>kind := py ''housenumber'', name := py_str h\<rparr>)
                        (ascending first_n step last_n))
      else if filter_name cfg (name item) then Inr ([item\<lparr>kind := py ''housenumber''\<rparr>], [])
      else Inr ([], map (\<lambda>t. item\<lparr>kind := py ''housenumber'', name := t\<rparr>)
                        (sanitize cfg (name item))))"
proof -
  from assms(5) have d: "it = IInt n \<and> 0 < n \<and> step = n \<and> first_n = first0
          \<or> it = IStr (py ''even'') \<and> step = 2
              \<and> first_n = (if odd first0 then first0 + 1 else first0)
          \<or> it = IStr (py ''odd'') \<and> step = 2
              \<and> first_n = (if even first0 then first0 + 1 else first0)"
    by blast
  show ?thesis
    by (rule process_item_range [OF assms(1) assms(2) assms(3) assms(4) d assms(6)])
qed

theorem range_expansion_witness:
  "process_item default_config (Some (IStr (py ''even''))) (mk_item ''housenumber'' ''11-16'')
   = Inr ([], [mk_item ''housenumber'' ''12'', mk_item ''housenumber'' ''14'',
               mk_item ''housenumber'' ''16''])"
proof -
  have fk: "filter_kind default_config (kind (mk_item ''housenumber'' ''11-16''))"
    by (simp add: run_defs)
  have nm: "name (mk_item ''housenumber'' ''11-16'') = py ''11'' @ 45 # py ''16''"
    by (simp add: run_defs)
  have a: "py_int (py ''11'') = Inr 11" and b: "py_int (py ''16'') = Inr 16"
    by (simp_all add: run_defs digit_defs)
  have d: "IStr (py ''even'') = IInt 0 \<and> 0 < (0::int) \<and> (0::int) \<le> 9 \<and> (2::int) = 0
            \<and> (12::int) = 11
          \<or> IStr (py ''even'') = IStr (py ''even'') \<and> (2::int) = 2
              \<and> (12::int) = (if odd (11::int) then 11 + 1 else 11)
          \<or> IStr (py ''even'') = IStr (py ''odd'') \<and> (2::int) = 2
              \<and> (12::int) = (if even (11::int) then 11 + 1 else 11)"
    by simp
  have nov: "\<not> float_overflow (16 + 1 - 12) 2"
    by (simp add: float_overflow_def)
  have asc: "ascending 12 2 16 = [12, 14, 16]"
    by (simp add: ascending_def upt_conv_Cons)
  have "process_item default_config (Some (IStr (py ''even'')))
          (mk_item ''housenumber'' ''11-16'')
        = Inr ([], map (\<lambda>h. (mk_item ''housenumber'' ''11-16'')
                          \<lparr>kind := py ''housenumber'', name := py_str h\<rparr>) [12, 14, 16])"
    using range_expansion [OF fk nm a b d nov] asc by simp
  then show ?thesis
    by (simp add: mk_item_def py_str_def decimal_digits.simps py_def)
qed

subsection \<open>Descending ranges\<close>

lemma decimal_value_ascii:
  assumes "d < 10"
  shows "decimal_value (48 + d) = Some d"
  using assms by (simp add: decimal_value_def decimal_zeros_def)

lemma parse_decimal_zeros:
  "parse_decimal acc (replicate n 48 @ s) = parse_decimal (acc * 10 ^ n) s"
proof (induction n arbitrary: acc)
  case 0
  show ?case by simp
next
  case (Suc n)
  have "decimal_value 48 = Some 0"
    using decimal_value_ascii [of 0] by simp
  then show ?case
    by (simp add: Suc.IH mult.assoc mult.commute)
qed

lemma py_int_power_of_ten:
  assumes "n < 4300"
  shows "py_int (49 # replicate n 48) = Inr (10 ^ n)"
proof -
  have "decimal_value 49 = Some 1"
    using decimal_value_ascii [of 1] by simp
  then have "parse_decimal 0 (49 # replicate n 48 @ []) = Some (10 ^ n)"
    by (simp only: parse_decimal.simps option.case parse_decimal_zeros) simp
  with assms show ?thesis by (simp add: py_int_def int_max_str_digits_def)
qed

lemma process_item_huge:
  "process_item default_config (Some (IInt 1))
     \<lparr>name = 49 # replicate 309 48 @ 45 # py ''1'', kind = py ''housenumber'', extra = ()\<rparr>
   = Inl OverflowError"
proof -
  let ?v = "49 # replicate 309 48 @ 45 # py ''1''"
  have v: "?v = (49 # replicate 309 48) @ 45 # py ''1''"
    by simp
  have a: "py_int (49 # replicate 309 48) = Inr (10 ^ 309)"
    by (rule py_int_power_of_ten) simp
  have b: "py_int (py ''1'') = Inr 1"
    by (simp add: py_int_def int_max_str_digits_def py_def digit_defs)
  have fm: "RANGE_REGEX_fullmatch ?v"
    by (rule fullmatch_endpoints [OF v a b])
  have o: "float_overflow (1 + 1 - 10 ^ 309) 1"
    by (simp add: float_overflow_def)
  have "expand_range (IInt 1) ((49 # replicate 309 48) @ 45 # py ''1'') =
     (case py_truediv (1 + 1 - 10 ^ 309) 1 of
        Inl e \<Rightarrow> Inl e
      | Inr q \<Rightarrow> if q < 10 then py_range (10 ^ 309) (1 + 1) 1 else Inr [])"
    by (rule expand_range_core [OF a b, where n = 1 and s = "[]"]) simp
  with o have "expand_range (IInt 1) ?v = Inl OverflowError"
    by (simp add: py_truediv_def)
  with fm have "try_expand (Some (IInt 1)) ?v = Inl OverflowError"
    by (simp add: try_expand_def)
  then show ?thesis
    by (simp add: process_item_def default_config_def is_housenumber_def)
qed

text \<open>
  Claim C9 says that every descending range yields an empty expansion and falls through
  to the splitting. The count is computed by a float division before the range is built,
  and the division raises OverflowError when the quotient is too large for a float: with
  the directive \<^verbatim>\<open>all\<close>, the house number whose first endpoint is 1 followed by 309
  zeros and whose last endpoint is 1 matches the range pattern and is descending, and
  the call on it does not return.
\<close>

theorem huge_descending_range_raises:
  "call default_config
     (mk_record []
        [mk_item ''interpolation'' ''all'',
         \<lparr>name = 49 # replicate 309 48 @ 45 # py ''1'', kind = py ''housenumber'',
          extra = ()\<rparr>])
   = Inl OverflowError"
proof -
  have g: "get_itype default_config
        [mk_item ''interpolation'' ''all'',
         \<lparr>name = 49 # replicate 309 48 @ 45 # py ''1'', kind = py ''housenumber'',
          extra = ()\<rparr>] = Inr (Some (IInt 1))"
    by (simp add: get_itype_def first_interpolation_def default_config_def mk_item_def)
  have i: "process_item default_config (Some (IInt 1)) (mk_item ''interpolation'' ''all'')
        = Inr ([], [])"
    by (simp add: process_item_def default_config_def is_housenumber_def mk_item_def py_def)
  show ?thesis
    by (simp add: call_def mk_record_def g i process_item_huge)
qed

text \<open>
  When the count fits a float, a descending range is not expanded, and with the default
  configuration the item comes out with its value unchanged.
\<close>

lemma split_at_no_delimiter:
  assumes "set ds \<inter> set v = {}"
  shows "split_at ds v = [v]"
  using assms by (induction v) auto

lemma decimal_no_delimiter:
  assumes "list_all isdecimal_char s"
  shows "44 \<notin> set s" and "59 \<notin> set s"
proof -
  have "decimal_value 44 = None" and "decimal_value 59 = None"
    by (simp_all add: decimal_value_def decimal_zeros_def)
  with assms show "44 \<notin> set s" and "59 \<notin> set s"
    by (auto simp: list_all_iff isdecimal_char_def)
qed

lemma sanitize_default_range:
  assumes "py_int a = Inr first0" and "py_int b = Inr last_n"
  shows "sanitize default_config (a @ 45 # b) = [a @ 45 # b]"
proof -
  have "set [44, 59] \<inter> set (a @ 45 # b) = {}"
    using decimal_no_delimiter [of a] decimal_no_delimiter [of b]
      py_int_Inr [OF assms(1)] py_int_Inr [OF assms(2)]
    by simp
  then have "split_at [44, 59] (a @ 45 # b) = [a @ 45 # b]"
    by (rule split_at_no_delimiter)
  then show ?thesis
    by (simp add: sanitize_def default_config_def delimiter_split_def regularize_def)
qed

lemma descending_range_unchanged:
  assumes k: "kind item = py ''housenumber''"
    and nm: "name item = a @ 45 # b"
    and a: "py_int a = Inr first0" and b: "py_int b = Inr last_n"
    and d: "it = IInt n \<and> 0 < n \<and> step = n \<and> first_n = first0
          \<or> it = IStr (py ''even'') \<and> step = 2
              \<and> first_n = (if odd first0 then first0 + 1 else first0)
          \<or> it = IStr (py ''odd'') \<and> step = 2
              \<and> first_n = (if even first0 then first0 + 1 else first0)"
    and nov: "\<not> float_overflow (last_n + 1 - first_n) step"
    and desc: "last_n < first_n"
  shows "try_expand (Some it) (name item) = Inr []"
    and "process_item default_config (Some it) item
         = Inr ([], [item\<lparr>kind := py ''housenumber''\<rparr>])"
proof -
  have fm: "RANGE_REGEX_fullmatch (name item)"
    by (rule fullmatch_endpoints [OF nm a b])
  note e = expand_range_positive [OF a b d nov]
  have "ascending first_n step last_n = []"
    using ascending_empty [OF e(1)] desc by simp
  with fm e(2) show "try_expand (Some it) (name item) = Inr []"
    by (simp add: try_expand_def nm)
  have fk: "filter_kind default_config (kind item)"
    by (simp add: default_config_def is_housenumber_def k)
  have fn: "\<not> filter_name default_config (name item)"
    by (simp add: default_config_def fail_all_def)
  have "item\<lparr>kind := py ''housenumber'', name := name item\<rparr> = item\<lparr>kind := py ''housenumber''\<rparr>"
    by simp
  then show "process_item default_config (Some it) item
         = Inr ([], [item\<lparr>kind := py ''housenumber''\<rparr>])"
    unfolding process_item_range [OF fk nm a b d nov]
    using desc fn sanitize_default_range [OF a b] by (simp add: nm)
qed

subsection \<open>The values of the expanded items\<close>

lemma decimal_digits_not_empty: "decimal_digits n \<noteq> []"
  by (subst decimal_digits.simps) simp

lemma decimal_digits_ascii: "list_all (\<lambda>c. 48 \<le> c \<and> c \<le> 57) (decimal_digits n)"
proof (induction n rule: decimal_digits.induct)
  case (1 n)
  have "n mod 10 < 10" by simp
  then have "48 + n mod 10 \<le> 57" by linarith
  with 1 show ?case
    by (subst decimal_digits.simps) auto
qed

lemma decimal_digits_value:
  "foldl (\<lambda>acc c. 10 * acc + (c - 48)) 0 (decimal_digits n) = n"
proof (induction n rule: decimal_digits.induct)
  case (1 n)
  then show ?case
    by (subst decimal_digits.simps) auto
qed

lemma decimal_digits_hd: "(hd (decimal_digits n) = 48) = (n = 0)"
proof (induction n rule: decimal_digits.induct)
  case (1 n)
  show ?case
  proof (cases "n < 10")
    case True
    then show ?thesis by (subst decimal_digits.simps) simp
  next
    case False
    then have "n div 10 \<noteq> 0" by simp
    with 1 False have "hd (decimal_digits (n div 10)) \<noteq> 48" by simp
    with False show ?thesis
      by (subst decimal_digits.simps) (simp add: hd_append decimal_digits_not_empty)
  qed
qed

lemma decimal_digits_single: "(decimal_digits n = [48]) = (n = 0)"
proof (cases "n < 10")
  case True
  then show ?thesis by (subst decimal_digits.simps) simp
next
  case False
  have "decimal_digits (n div 10) @ [48 + n mod 10] \<noteq> [48]"
    using decimal_digits_not_empty [of "n div 10"]
    by (cases "decimal_digits (n div 10)") simp_all
  with False show ?thesis by (subst decimal_digits.simps) simp
qed

lemma py_str_canonical:
  assumes "0 \<le> h"
  shows "canonical_decimal (py_str h) h"
  using assms
  by (simp add: canonical_decimal_def py_str_def decimal_digits_not_empty
      decimal_digits_ascii decimal_digits_value decimal_digits_hd decimal_digits_single)

lemma get_itype_nonneg:
  assumes "get_itype cfg addr = Inr (Some (IInt n))"
  shows "0 \<le> n"
  using assms
  by (auto simp: get_itype_def split: if_splits option.splits sum.splits dest: py_int_Inr)

lemma expand_range_elements:
  assumes m: "RANGE_REGEX_fullmatch v" and e: "expand_range t v = Inr hnrs"
    and n: "\<And>n. t = IInt n \<Longrightarrow> 0 \<le> n"
  shows "list_all (\<lambda>h. 0 \<le> h) hnrs"
proof -
  from fullmatch_elim [OF m] obtain a b where v: "v = a @ 45 # b"
    and ab: "a \<noteq> []" "b \<noteq> []" "list_all isdecimal_char a" "list_all isdecimal_char b"
    by blast
  have sp: "py_split 45 v = [a, b]"
    unfolding v using ab by (intro py_split_at_sep all_decimal_no_hyphen)
  from e obtain f where a: "py_int a = Inr f"
    by (cases "py_int a") (simp_all add: expand_range_def sp)
  from e obtain l where b: "py_int b = Inr l"
    by (cases "py_int b") (simp_all add: expand_range_def sp a)
  from py_int_Inr [OF a] have f0: "0 \<le> f" by simp
  define step where "step = (case t of IInt n \<Rightarrow> n | IStr s \<Rightarrow> 2)"
  define first_n where "first_n = (case t of IInt n \<Rightarrow> f
      | IStr s \<Rightarrow> if (s = py ''even'' \<and> f mod 2 = 1) \<or> (s = py ''odd'' \<and> f mod 2 = 0)
                   then f + 1 else f)"
  have c: "expand_range t v =
     (case py_truediv (l + 1 - first_n) step of
        Inl e \<Rightarrow> Inl e
      | Inr q \<Rightarrow> if q < 10 then py_range first_n (l + 1) step else Inr [])"
  proof (cases t)
    case (IInt k)
    show ?thesis unfolding v
      by (rule expand_range_core [OF a b, where n = k and s = "[]"])
        (simp add: IInt step_def first_n_def)
  next
    case (IStr s)
    show ?thesis unfolding v
      by (rule expand_range_core [OF a b, where n = 0 and s = s])
        (simp add: IStr step_def first_n_def)
  qed
  have fn: "f \<le> first_n"
    by (simp add: first_n_def split: itype.splits)
  have s0: "0 \<le> step"
    using n by (simp add: step_def split: itype.splits)
  show ?thesis
  proof (cases "step = 0")
    case True
    with c e show ?thesis by (simp add: py_truediv_def)
  next
    case False
    with s0 have sp: "0 < step" by simp
    have "hnrs = [] \<or> hnrs = ascending first_n step l"
      using c e py_range_ascending [OF sp, of first_n l]
      by (auto simp: py_truediv_def split: if_splits)
    then show ?thesis
      using ascending_mem [OF sp, of _ first_n l] fn f0 by (auto simp: list_all_iff)
  qed
qed

text \<open>
  Claim C10: let \<open>it\<close> be the directive of an address, and let the expansion of the value
  of an item classified as a house number succeed with the non-empty list \<open>hnrs\<close> of
  integers. Then the turn of the loop appends to the address one copy of the item per
  integer, of kind \<^verbatim>\<open>housenumber\<close>, whose value is the string of the integer, and
  each of these strings is the canonical decimal representation of its integer: ASCII
  digits without leading zeros, whatever the digits of the original value were.
\<close>

theorem expansion_values_canonical:
  assumes g: "get_itype cfg addr = Inr it" and fk: "filter_kind cfg (kind item)"
    and e: "try_expand it (name item) = Inr hnrs" and ne: "hnrs \<noteq> []"
  shows "process_item cfg it item
         = Inr ([], map (\<lambda>h. item\<lparr>kind := py ''housenumber'', name := py_str h\<rparr>) hnrs)
       \<and> list_all (\<lambda>h. canonical_decimal (py_str h) h) hnrs"
proof
  show "process_item cfg it item
         = Inr ([], map (\<lambda>h. item\<lparr>kind := py ''housenumber'', name := py_str h\<rparr>) hnrs)"
    using fk e ne by (simp add: process_item_def clone_kind_name_def)
  from e ne obtain t where t: "it = Some t" and m: "RANGE_REGEX_fullmatch (name item)"
    and x: "expand_range t (name item) = Inr hnrs"
    by (auto simp: try_expand_def split: option.splits if_splits)
  have "\<And>n. t = IInt n \<Longrightarrow> 0 \<le> n"
    using g t get_itype_nonneg by blast
  from expand_range_elements [OF m x this] have "list_all (\<lambda>h. 0 \<le> h) hnrs" .
  then show "list_all (\<lambda>h. canonical_decimal (py_str h) h) hnrs"
    by (auto simp: list_all_iff py_str_canonical)
qed

theorem expansion_values_canonical_witness:
  "process_item default_config (Some (IInt 1)) (mk_item ''housenumber'' ''008-010'')
   = Inr ([], [mk_item ''housenumber'' ''8'', mk_item ''housenumber'' ''9'',
               mk_item ''housenumber'' ''10''])
   \<and> canonical_decimal (py ''8'') 8 \<and> canonical_decimal (py ''9'') 9
   \<and> canonical_decimal (py ''10'') 10"
proof -
  have g: "get_itype default_config
        [mk_item ''interpolation'' ''all'', mk_item ''housenumber'' ''008-010'']
      = Inr (Some (IInt 1))"
    by (simp add: run_defs digit_defs)
  have fk: "filter_kind default_config (kind (mk_item ''housenumber'' ''008-010''))"
    by (simp add: run_defs)
  have e: "try_expand (Some (IInt 1)) (name (mk_item ''housenumber'' ''008-010''))
      = Inr [8, 9, 10]"
    by (simp add: run_defs digit_defs)
  have ne: "[8, 9, 10 :: int] \<noteq> []"
    by simp
  have s: "py_str 8 = py ''8''" "py_str 9 = py ''9''" "py_str 10 = py ''10''"
    by (simp_all add: py_str_def decimal_digits.simps py_def)
  from expansion_values_canonical [OF g fk e ne] s show ?thesis
    by (simp add: mk_item_def)
qed

end
